theory Spec2Isabelle
  imports Complex_Main
begin

section \<open>JavaScript numbers\<close>

text \<open>
  \<^verbatim>\<open>src/ui.js\<close> computes with JavaScript numbers. A number is modelled as a finite
  rational or one of the three special values of IEEE 754 that the chart code can
  produce: both infinities and NaN. Finite arithmetic is exact (no rounding to 53 bits),
  and zero carries no sign: every zero that reaches a denominator below is a positive
  zero (a power of ten, a product with one, an array length).
\<close>

datatype jsnum = Fin rat | PInf | NInf | NaN

fun jneg :: "jsnum \<Rightarrow> jsnum" where
  "jneg (Fin a) = Fin (- a)"
| "jneg PInf = NInf"
| "jneg NInf = PInf"
| "jneg NaN = NaN"

fun jadd :: "jsnum \<Rightarrow> jsnum \<Rightarrow> jsnum" where
  "jadd (Fin a) (Fin b) = Fin (a + b)"
| "jadd NaN y = NaN"
| "jadd x NaN = NaN"
| "jadd PInf NInf = NaN"
| "jadd NInf PInf = NaN"
| "jadd PInf y = PInf"
| "jadd x PInf = PInf"
| "jadd NInf y = NInf"
| "jadd x NInf = NInf"

definition jsub :: "jsnum \<Rightarrow> jsnum \<Rightarrow> jsnum" where
  "jsub x y = jadd x (jneg y)"

fun jmul :: "jsnum \<Rightarrow> jsnum \<Rightarrow> jsnum" where
  "jmul (Fin a) (Fin b) = Fin (a * b)"
| "jmul NaN y = NaN"
| "jmul x NaN = NaN"
| "jmul (Fin a) y = (if a = 0 then NaN else if 0 < a then y else jneg y)"
| "jmul x (Fin b) = (if b = 0 then NaN else if 0 < b then x else jneg x)"
| "jmul PInf y = y"
| "jmul NInf y = jneg y"

fun jdiv :: "jsnum \<Rightarrow> jsnum \<Rightarrow> jsnum" where
  "jdiv (Fin a) (Fin b) =
     (if b = 0 then (if a = 0 then NaN else if 0 < a then PInf else NInf)
      else Fin (a / b))"
| "jdiv NaN y = NaN"
| "jdiv x NaN = NaN"
| "jdiv (Fin a) y = Fin 0"
| "jdiv x (Fin b) = (if 0 \<le> b then x else jneg x)"
| "jdiv x y = NaN"

text \<open>The comparisons \<^verbatim>\<open><\<close> and \<^verbatim>\<open>===\<close>: false as soon as one side is NaN.\<close>

fun jlt :: "jsnum \<Rightarrow> jsnum \<Rightarrow> bool" where
  "jlt (Fin a) (Fin b) = (a < b)"
| "jlt NaN y = False"
| "jlt x NaN = False"
| "jlt PInf y = False"
| "jlt x PInf = True"
| "jlt x NInf = False"
| "jlt NInf y = True"

definition jgt :: "jsnum \<Rightarrow> jsnum \<Rightarrow> bool" where
  "jgt x y = jlt y x"

fun jeq :: "jsnum \<Rightarrow> jsnum \<Rightarrow> bool" where
  "jeq NaN y = False"
| "jeq x NaN = False"
| "jeq x y = (x = y)"

text \<open>\<^verbatim>\<open>Math.ceil\<close> and the two-argument \<^verbatim>\<open>Math.max\<close>.\<close>

fun jceil :: "jsnum \<Rightarrow> jsnum" where
  "jceil (Fin a) = Fin (of_int \<lceil>a\<rceil>)"
| "jceil x = x"

fun jmax :: "jsnum \<Rightarrow> jsnum \<Rightarrow> jsnum" where
  "jmax NaN y = NaN"
| "jmax x NaN = NaN"
| "jmax x y = (if jlt x y then y else x)"

subsection \<open>The decimal order of magnitude\<close>

text \<open>
  \<^verbatim>\<open>Math.floor(Math.log10(x))\<close> for a positive rational, by repeated scaling:
  \<open>ilog10_ge\<close> counts the divisions by ten that bring \<open>x \<ge> 1\<close> below ten,
  \<open>ilog10_lt\<close> the multiplications by ten that bring \<open>0 < x < 1\<close> up to one.
\<close>

function ilog10_ge :: "rat \<Rightarrow> int" where
  "ilog10_ge x = (if x < 10 then 0 else ilog10_ge (x / 10) + 1)"
  by pat_completeness auto
termination
proof (relation "measure (\<lambda>x. nat \<lfloor>x\<rfloor>)")
  show "wf (measure (\<lambda>x::rat. nat \<lfloor>x\<rfloor>))" by simp
next
  fix x :: rat
  assume "\<not> x < 10"
  then have "\<lfloor>x / 10\<rfloor> < \<lfloor>x\<rfloor>" and "0 < \<lfloor>x\<rfloor>"
    by (simp_all add: floor_less_iff) linarith+
  then show "(x / 10, x) \<in> measure (\<lambda>x. nat \<lfloor>x\<rfloor>)" by simp
qed

declare ilog10_ge.simps [simp del]

function ilog10_lt :: "rat \<Rightarrow> int" where
  "ilog10_lt x = (if x \<le> 0 \<or> 1 \<le> x then 0 else ilog10_lt (x * 10) - 1)"
  by pat_completeness auto
termination
proof (relation "measure (\<lambda>x. nat \<lceil>1 / x\<rceil>)")
  show "wf (measure (\<lambda>x::rat. nat \<lceil>1 / x\<rceil>))" by simp
next
  fix x :: rat
  assume "\<not> (x \<le> 0 \<or> 1 \<le> x)"
  then have x: "0 < x" "x < 1" by simp_all
  then have one: "1 < 1 / x" by simp
  have "1 / (x * 10) = (1 / x) / 10" by simp
  also have "\<dots> \<le> of_int \<lceil>1 / x\<rceil> / 10"
    by (simp add: divide_right_mono)
  also have "\<dots> \<le> of_int (\<lceil>1 / x\<rceil> - 1)"
  proof -
    define c :: rat where "c = of_int \<lceil>1 / x\<rceil>"
    have "2 \<le> \<lceil>1 / x\<rceil>" using one by linarith
    then have "2 \<le> c" unfolding c_def by linarith
    then have "c / 10 \<le> c - 1" by linarith
    then show ?thesis unfolding c_def by simp
  qed
  finally have "\<lceil>1 / (x * 10)\<rceil> \<le> \<lceil>1 / x\<rceil> - 1"
    by (rule ceiling_le)
  moreover have "0 < \<lceil>1 / x\<rceil>" using one by linarith
  ultimately show "(x * 10, x) \<in> measure (\<lambda>x. nat \<lceil>1 / x\<rceil>)" by simp
qed

declare ilog10_lt.simps [simp del]

definition ilog10 :: "rat \<Rightarrow> int" where
  "ilog10 x = (if 1 \<le> x then ilog10_ge x else ilog10_lt x)"

text \<open>
  \<^verbatim>\<open>Math.floor(Math.log10(x))\<close> on all numbers: the logarithm of zero is
  \<open>-Infinity\<close>, that of a negative number NaN, and \<^verbatim>\<open>Math.floor\<close> keeps both.
\<close>

fun floorLog10 :: "jsnum \<Rightarrow> jsnum" where
  "floorLog10 (Fin x) =
     (if x < 0 then NaN else if x = 0 then NInf else Fin (of_int (ilog10 x)))"
| "floorLog10 PInf = PInf"
| "floorLog10 NInf = NaN"
| "floorLog10 NaN = NaN"

text \<open>
  \<^verbatim>\<open>Math.pow(10, y)\<close>. The chart code calls it on the value of \<open>floorLog10\<close> only,
  so a finite \<open>y\<close> is an integer.
\<close>

fun pow10 :: "jsnum \<Rightarrow> jsnum" where
  "pow10 (Fin y) = Fin (10 powi \<lfloor>y\<rfloor>)"
| "pow10 PInf = PInf"
| "pow10 NInf = Fin 0"
| "pow10 NaN = NaN"

section \<open>The Y scale of \<^verbatim>\<open>renderChart\<close>\<close>

text \<open>
  Lines 107 to 118 of \<^verbatim>\<open>src/ui.js\<close>, as a function of \<^verbatim>\<open>maxUsage\<close>. The source
  assigns \<^verbatim>\<open>step\<close> and \<^verbatim>\<open>niceMax\<close> twice; \<open>step0\<close> and \<open>niceMax0\<close> are the first
  assignments.
\<close>

record axis =
  step :: jsnum
  niceMax :: jsnum

definition yScale :: "jsnum \<Rightarrow> axis" where
  "yScale maxUsage =
     (let roughStep = jdiv maxUsage (Fin 4);
          magnitude = pow10 (floorLog10 roughStep);
          step0 = jmul (jceil (jdiv roughStep magnitude)) magnitude;
          step1 = (if jlt (jdiv step0 magnitude) (Fin (3 / 2)) then jmul (Fin 1) magnitude
                   else if jlt (jdiv step0 magnitude) (Fin 3) then jmul (Fin (5 / 2)) magnitude
                   else if jlt (jdiv step0 magnitude) (Fin 7) then jmul (Fin 5) magnitude
                   else jmul (Fin 10) magnitude);
          niceMax0 = jmul (jceil (jdiv maxUsage step1)) step1;
          niceMax1 = (if jeq niceMax0 (Fin 0) then Fin 5000 else niceMax0)
      in \<lparr>step = step1, niceMax = niceMax1\<rparr>)"

section \<open>Dates of the host\<close>

text \<open>
  A \<^verbatim>\<open>Date\<close> is its time value: milliseconds since 1970-01-01T00:00Z, an integer. The
  local-time getters depend on the host's time zone, modelled as a fixed offset \<open>tz\<close> in
  minutes east of UTC (\<^verbatim>\<open>getTimezoneOffset()\<close> is \<open>- tz\<close>; daylight-saving changes
  are left out).
\<close>

definition msPerDay :: int where
  "msPerDay = 1000 * 60 * 60 * 24"

definition localTime :: "int \<Rightarrow> int \<Rightarrow> int" where
  "localTime tz t = t + tz * 60000"

definition localDay :: "int \<Rightarrow> int \<Rightarrow> int" where
  "localDay tz t = localTime tz t div msPerDay"

text \<open>
  Year, month (1 to 12) and day of the month of a day number in the proleptic Gregorian
  calendar, over 400-year eras of 146097 days that start on 1 March.
\<close>

definition civil :: "int \<Rightarrow> int \<times> int \<times> int" where
  "civil z0 =
     (let z = z0 + 719468;
          era = z div 146097;
          doe = z mod 146097;
          yoe = (doe - doe div 1460 + doe div 36524 - doe div 146096) div 365;
          doy = doe - (365 * yoe + yoe div 4 - yoe div 100);
          mp = (5 * doy + 2) div 153;
          d = doy - (153 * mp + 2) div 5 + 1;
          m = (if mp < 10 then mp + 3 else mp - 9);
          y = yoe + era * 400
      in (if m \<le> 2 then y + 1 else y, m, d))"

definition getFullYear :: "int \<Rightarrow> int \<Rightarrow> int" where
  "getFullYear tz t = (case civil (localDay tz t) of (y, m, d) \<Rightarrow> y)"

definition getMonth :: "int \<Rightarrow> int \<Rightarrow> int" where
  "getMonth tz t = (case civil (localDay tz t) of (y, m, d) \<Rightarrow> m - 1)"

definition getDate :: "int \<Rightarrow> int \<Rightarrow> int" where
  "getDate tz t = (case civil (localDay tz t) of (y, m, d) \<Rightarrow> d)"

text \<open>Day of the week, Sunday being 0: 1970-01-01 was a Thursday.\<close>

definition getDay :: "int \<Rightarrow> int \<Rightarrow> int" where
  "getDay tz t = (localDay tz t + 4) mod 7"

text \<open>
  \<^verbatim>\<open>setDate(dt)\<close> keeps the local year, month and time of day and moves to day \<open>dt\<close>
  counted from the first of that month; \<open>dt\<close> may be zero or negative and then reaches
  into earlier months.
\<close>

definition setDate :: "int \<Rightarrow> int \<Rightarrow> int \<Rightarrow> int" where
  "setDate tz t dt =
     (let lt = localTime tz t;
          firstOfMonth = lt div msPerDay - (getDate tz t - 1);
          newDay = firstOfMonth + (dt - 1)
      in newDay * msPerDay + lt mod msPerDay - tz * 60000)"

text \<open>The remainder operator \<^verbatim>\<open>%\<close> on integers: the sign follows the dividend.\<close>

definition js_rem :: "int \<Rightarrow> int \<Rightarrow> int" where
  "js_rem a b = (if 0 \<le> a then a mod \<bar>b\<bar> else - ((- a) mod \<bar>b\<bar>))"

section \<open>\<^verbatim>\<open>generateMockData\<close>\<close>

text \<open>
  A sample keeps the \<^verbatim>\<open>date\<close> and \<^verbatim>\<open>usage\<close> fields of the source's objects. The two
  label fields are strings of the host's \<^verbatim>\<open>Intl.DateTimeFormat\<close> and are not modelled.
\<close>

record sample =
  date :: int
  usage :: int

text \<open>Lines 13 to 18: the seed, the random factor, the weekend test, the base usage.\<close>

definition dateSeed :: "int \<Rightarrow> int \<Rightarrow> int" where
  "dateSeed tz d = getFullYear tz d * 10000 + (getMonth tz d + 1) * 100 + getDate tz d"

definition randomFactor :: "int \<Rightarrow> real" where
  "randomFactor seed = (sin (of_int seed) + 1) / 2"

definition isWeekend :: "int \<Rightarrow> int \<Rightarrow> bool" where
  "isWeekend tz d = (getDay tz d = 0 \<or> getDay tz d = 6)"

definition baseUsage :: "int \<Rightarrow> int \<Rightarrow> int" where
  "baseUsage tz d =
     (if isWeekend tz d then 1500 else 5000) + \<lfloor>randomFactor (dateSeed tz d) * 2500\<rfloor>"

text \<open>Line 20: whole days of the time value since the epoch.\<close>

definition dayIndex :: "int \<Rightarrow> int" where
  "dayIndex d = d div msPerDay"

text \<open>Lines 22 to 28: the spikes.\<close>

definition sampleUsage :: "int \<Rightarrow> int \<Rightarrow> int" where
  "sampleUsage tz d =
     (if js_rem (dayIndex d) 37 = 0 then baseUsage tz d + 45000
      else if js_rem (dayIndex d) 11 = 0 then baseUsage tz d + 15000
      else if js_rem (dayIndex d) 5 = 0 \<and> \<not> isWeekend tz d then baseUsage tz d + 5000
      else baseUsage tz d)"

text \<open>The body of the loop for one \<open>i\<close>, and the loop, counting \<open>i\<close> down to zero.\<close>

definition loopBody :: "int \<Rightarrow> int \<Rightarrow> int \<Rightarrow> sample" where
  "loopBody tz today i =
     (let d = setDate tz today (getDate tz today - i)
      in \<lparr>date = d, usage = sampleUsage tz d\<rparr>)"

function genLoop :: "int \<Rightarrow> int \<Rightarrow> int \<Rightarrow> sample list \<Rightarrow> sample list" where
  "genLoop tz today i data =
     (if 0 \<le> i then genLoop tz today (i - 1) (data @ [loopBody tz today i]) else data)"
  by pat_completeness auto
termination
  by (relation "measure (\<lambda>(tz, today, i, data). nat (i + 1))") auto

declare genLoop.simps [simp del]

text \<open>\<open>today\<close> is the value of \<^verbatim>\<open>new Date()\<close> at the call.\<close>

definition generateMockData :: "int \<Rightarrow> int \<Rightarrow> int \<Rightarrow> sample list" where
  "generateMockData tz today days = genLoop tz today (days - 1) []"

section \<open>\<^verbatim>\<open>renderChart\<close>\<close>

text \<open>
  The drawing is modelled by the two layers that the properties below read: the hover
  rectangles of the group \<^verbatim>\<open>cursors\<close> and the outlines of the group \<^verbatim>\<open>bars\<close>. An
  outline is the list of the commands of its \<^verbatim>\<open>d\<close> attribute; all of them but the first
  are relative. Grid lines and text labels are not modelled.
\<close>

record rect =
  rect_x :: jsnum
  rect_y :: jsnum
  rect_width :: jsnum
  rect_height :: jsnum

datatype path_cmd =
    MoveTo jsnum jsnum
  | VertBy jsnum
  | HorizBy jsnum
  | ArcBy jsnum jsnum jsnum bool bool jsnum jsnum
  | ClosePath

record svg =
  svg_width :: jsnum
  svg_height :: jsnum
  cursors :: "rect list"
  bars :: "path_cmd list list"

text \<open>
  Line 107: \<^verbatim>\<open>Math.max\<close> over the usages; with no argument it is \<open>-Infinity\<close>.
\<close>

definition maxUsageOf :: "sample list \<Rightarrow> jsnum" where
  "maxUsageOf chartData = foldl jmax NInf (map (\<lambda>d. Fin (of_int (usage d))) chartData)"

text \<open>
  Lines 152 to 156: the width of a bar from the width of a slot, with
  \<^verbatim>\<open>barGapPct = 0.02\<close>.
\<close>

definition barWidthOf :: "jsnum \<Rightarrow> jsnum" where
  "barWidthOf totalBarWidth =
     (let barWidth = jmul totalBarWidth (jsub (Fin 1) (Fin (2 / 100)))
      in if jgt barWidth (Fin 80) then Fin 80 else barWidth)"

text \<open>
  Lines 199 to 216: the outline of one bar. The template writes a minus sign in front of
  \<^verbatim>\<open>h\<close> and of \<^verbatim>\<open>h - r\<close>, which are not negative where it does; that is the negated
  number.
\<close>

definition barShape :: "jsnum \<Rightarrow> jsnum \<Rightarrow> jsnum \<Rightarrow> jsnum \<Rightarrow> path_cmd list" where
  "barShape barX barY barH barWidth =
     (let r = Fin 4;
          h = jmax (Fin 0) barH;
          w = barWidth
      in if jlt h r then
           [MoveTo barX (jadd barY h), VertBy (jneg h), HorizBy w, VertBy h, ClosePath]
         else
           [MoveTo barX (jadd barY h),
            VertBy (jneg (jsub h r)),
            ArcBy r r (Fin 0) False True r (jneg r),
            HorizBy (jsub w (jmul (Fin 2) r)),
            ArcBy r r (Fin 0) False True r r,
            VertBy (jsub h r),
            ClosePath])"

text \<open>
  Lines 162 to 176 and 198 to 216: what the callback of \<^verbatim>\<open>forEach\<close> draws for sample
  \<open>d\<close> at index \<open>i\<close>, the hover rectangle and the outline. The margins are
  \<^verbatim>\<open>{ top: 10, right: 10, bottom: 25, left: 50 }\<close>.
\<close>

definition cursorOf :: "jsnum \<Rightarrow> jsnum \<Rightarrow> nat \<Rightarrow> rect" where
  "cursorOf totalBarWidth chartHeight i =
     (let slotX = jadd (Fin 50) (jmul (Fin (of_nat i)) totalBarWidth)
      in \<lparr>rect_x = slotX, rect_y = Fin 10, rect_width = totalBarWidth,
          rect_height = chartHeight\<rparr>)"

definition barOf :: "jsnum \<Rightarrow> jsnum \<Rightarrow> jsnum \<Rightarrow> nat \<Rightarrow> sample \<Rightarrow> path_cmd list" where
  "barOf totalBarWidth chartHeight nMax i d =
     (let barWidth = barWidthOf totalBarWidth;
          actualGap = jsub totalBarWidth barWidth;
          slotX = jadd (Fin 50) (jmul (Fin (of_nat i)) totalBarWidth);
          barX = jadd slotX (jdiv actualGap (Fin 2));
          barH = jmul (jdiv (Fin (of_int (usage d))) nMax) chartHeight;
          barY = jadd (Fin 10) (jsub chartHeight barH)
      in barShape barX barY barH barWidth)"

text \<open>
  The whole function. \<open>width\<close> and \<open>height\<close> are what \<^verbatim>\<open>getBoundingClientRect\<close>
  returns, \<open>chartData\<close> is the global of that name, and the list of drawings is the
  children of the container, before and after the call.
\<close>

definition renderChart :: "rat \<Rightarrow> rat \<Rightarrow> sample list \<Rightarrow> svg list \<Rightarrow> svg list" where
  "renderChart width height chartData container =
     (let cleared = [] in
      if width = 0 \<or> height = 0 then cleared
      else
        let chartWidth = jsub (jsub (Fin width) (Fin 50)) (Fin 10);
            chartHeight = jsub (jsub (Fin height) (Fin 10)) (Fin 25);
            nMax = niceMax (yScale (maxUsageOf chartData));
            totalBarWidth = jdiv chartWidth (Fin (of_nat (length chartData)));
            indexed = enumerate 0 chartData
        in cleared @
           [\<lparr>svg_width = Fin width, svg_height = Fin height,
             cursors = map (\<lambda>(i, d). cursorOf totalBarWidth chartHeight i) indexed,
             bars = map (\<lambda>(i, d). barOf totalBarWidth chartHeight nMax i d) indexed\<rparr>])"

section \<open>Reading a drawing\<close>

text \<open>An outline is rounded when one of its commands is an arc.\<close>

fun isArc :: "path_cmd \<Rightarrow> bool" where
  "isArc (ArcBy rx ry rot large sweep dx dy) = True"
| "isArc c = False"

definition rounded :: "path_cmd list \<Rightarrow> bool" where
  "rounded p = list_ex isArc p"




section \<open>The specification's words, for comparison\<close>

text \<open>
  The step as the specification of the axis scaler describes it, on a positive finite
  maximum: the thresholds are applied to the quotient \<open>roughStep / magnitude\<close> itself.
\<close>

definition specStep :: "rat \<Rightarrow> rat" where
  "specStep maxValue =
     (let roughStep = maxValue / 4;
          magnitude = 10 powi ilog10 roughStep;
          r = roughStep / magnitude;
          multiplier = (if r < 3 / 2 then 1 else if r < 3 then 5 / 2
                        else if r < 7 then 5 else 10)
      in multiplier * magnitude)"

section \<open>Properties of the order of magnitude\<close>

text \<open>
  \<open>ilog10 x\<close> is the exponent of the power of ten at or below a positive \<open>x\<close>.
\<close>

lemma ilog10_ge_bounds:
  "1 \<le> x \<Longrightarrow> 10 powi ilog10_ge x \<le> x \<and> x < 10 powi (ilog10_ge x + 1)"
proof (induction x rule: ilog10_ge.induct)
  case (1 x)
  show ?case
  proof (cases "x < 10")
    case True
    then have "ilog10_ge x = 0" by (simp add: ilog10_ge.simps [of x])
    with True "1.prems" show ?thesis by simp
  next
    case False
    then have "1 \<le> x / 10" by simp
    with "1.IH" False
    have ih: "10 powi ilog10_ge (x / 10) \<le> x / 10"
             "x / 10 < 10 powi (ilog10_ge (x / 10) + 1)"
      by simp_all
    have eq: "ilog10_ge x = ilog10_ge (x / 10) + 1"
      using False by (simp add: ilog10_ge.simps [of x])
    have "10 powi (ilog10_ge (x / 10) + 1) = 10 powi ilog10_ge (x / 10) * (10::rat)"
      by (rule power_int_add_1) simp
    moreover have "10 powi (ilog10_ge (x / 10) + 1 + 1) = 10 powi (ilog10_ge (x / 10) + 1) * (10::rat)"
      by (rule power_int_add_1) simp
    ultimately show ?thesis using ih unfolding eq by simp 
  qed
qed

lemma ilog10_lt_bounds:
  "0 < x \<Longrightarrow> x < 10 \<Longrightarrow> 10 powi ilog10_lt x \<le> x \<and> x < 10 powi (ilog10_lt x + 1)"
proof (induction x rule: ilog10_lt.induct)
  case (1 x)
  show ?case
  proof (cases "1 \<le> x")
    case True
    then have "ilog10_lt x = 0" by (simp add: ilog10_lt.simps [of x])
    with True "1.prems" show ?thesis by simp
  next
    case False
    with "1.prems" have c: "\<not> (x \<le> 0 \<or> 1 \<le> x)" by simp
    have "0 < x * 10" "x * 10 < 10" using c by simp_all
    with "1.IH" c
    have ih: "10 powi ilog10_lt (x * 10) \<le> x * 10"
             "x * 10 < 10 powi (ilog10_lt (x * 10) + 1)"
      by simp_all
    have eq: "ilog10_lt x = ilog10_lt (x * 10) - 1"
      using c by (simp add: ilog10_lt.simps [of x])
    have "10 powi (ilog10_lt (x * 10) - 1 + 1) = 10 powi (ilog10_lt (x * 10) - 1) * (10::rat)"
      by (rule power_int_add_1) simp
    moreover have "10 powi (ilog10_lt (x * 10) + 1) = 10 powi (ilog10_lt (x * 10)) * (10::rat)"
      by (rule power_int_add_1) simp
    ultimately show ?thesis using ih unfolding eq by simp
  qed
qed

lemma ilog10_bounds:
  assumes "0 < x"
  shows "10 powi ilog10 x \<le> x" and "x < 10 powi (ilog10 x + 1)"
  using assms ilog10_ge_bounds [of x] ilog10_lt_bounds [of x]
  by (simp_all add: ilog10_def)

lemma of_rat_pow10:
  "(of_rat (10 powi k) :: real) = 10 powr (of_int k)"
proof (cases "0 \<le> k")
  case True
  then show ?thesis
    by (simp add: power_int_def of_rat_power powr_realpow [symmetric])
next
  case False
  then have "(10::real) powr (of_int k) = inverse (10 powr (of_int (- k)))"
    by (simp add: powr_minus)
  also have "\<dots> = inverse (10 ^ nat (- k))"
    using False by (simp add: powr_realpow [symmetric])
  finally have r: "(10::real) powr (of_int k) = inverse (10 ^ nat (- k))" .
  have "(10::rat) powi k = inverse (10 ^ nat (- k))"
    using False by (simp add: power_int_def power_divide inverse_eq_divide)
  then have "(of_rat (10 powi k) :: real) = of_rat (inverse (10 ^ nat (- k)))"
    by (simp only:)
  also have "\<dots> = inverse (10 ^ nat (- k))"
    by (simp only: of_rat_inverse of_rat_power of_rat_numeral_eq)
  finally show ?thesis using r by (simp only:)
qed

lemma ilog10_floor_log:
  assumes "0 < x"
  shows "ilog10 x = \<lfloor>log 10 (of_rat x)\<rfloor>"
proof -
  let ?k = "ilog10 x"
  have "of_rat (10 powi ?k) \<le> (of_rat x :: real)"
    using ilog10_bounds(1) [OF assms] by (simp only: of_rat_less_eq)
  moreover have "(of_rat x :: real) < of_rat (10 powi (?k + 1))"
    using ilog10_bounds(2) [OF assms] by (simp only: of_rat_less)
  ultimately have "10 powr (of_int ?k) \<le> (of_rat x :: real) \<and>
      (of_rat x :: real) < 10 powr (of_int (?k + 1))"
    by (simp only: of_rat_pow10)
  moreover have "0 < (of_rat x :: real)" using assms by simp
  ultimately have "\<lfloor>log 10 (of_rat x :: real)\<rfloor> = ?k"
    by (subst floor_log_eq_powr_iff) simp_all
  then show ?thesis by simp
qed

section \<open>The Y scale\<close>

text \<open>
  On a positive finite maximum every intermediate value of the Y scale is finite: the
  magnitude \<open>mag\<close> is a positive power of ten, the quotient \<^verbatim>\<open>step / magnitude\<close> that the
  thresholds test is the rounded-up \<open>r\<close>, and \<^verbatim>\<open>niceMax\<close> is not zero.
\<close>

lemma yScale_finite:
  assumes "0 < m"
  defines "mag \<equiv> 10 powi ilog10 (m / 4)"
  defines "r \<equiv> (of_int \<lceil>m / 4 / mag\<rceil> :: rat)"
  defines "s \<equiv> (if r < 3 / 2 then 1 else if r < 3 then 5 / 2 else if r < 7 then 5 else 10) * mag"
  shows "yScale (Fin m) = \<lparr>step = Fin s, niceMax = Fin (of_int \<lceil>m / s\<rceil> * s)\<rparr>"
    and "0 < mag" and "0 < s" 
proof -
  show mag: "0 < mag" by (simp add: mag_def)
  show s: "0 < s" using mag by (simp add: s_def)
  have ms: "0 < m / s" using assms(1) s by simp
  have "\<lceil>m / s\<rceil> \<noteq> 0" using ms by linarith
  then have nz: "of_int \<lceil>m / s\<rceil> * s \<noteq> 0" using s by simp
  have a: "jdiv (Fin m) (Fin 4) = Fin (m / 4)" by simp
  have b: "pow10 (floorLog10 (Fin (m / 4))) = Fin mag"
    using assms(1) by (simp add: mag_def)
  have c: "jmul (jceil (jdiv (Fin (m / 4)) (Fin mag))) (Fin mag) = Fin (r * mag)"
    using mag by (simp add: r_def)
  have d: "jdiv (Fin (r * mag)) (Fin mag) = Fin r" using mag by simp
  have e: "(if jlt (Fin r) (Fin (3 / 2)) then jmul (Fin 1) (Fin mag)
            else if jlt (Fin r) (Fin 3) then jmul (Fin (5 / 2)) (Fin mag)
            else if jlt (Fin r) (Fin 7) then jmul (Fin 5) (Fin mag)
            else jmul (Fin 10) (Fin mag)) = Fin s"
    by (simp add: s_def)
  have f: "jmul (jceil (jdiv (Fin m) (Fin s))) (Fin s) = Fin (of_int \<lceil>m / s\<rceil> * s)"
    using s by simp
  have g: "\<not> jeq (Fin (of_int \<lceil>m / s\<rceil> * s)) (Fin 0)" using nz by simp
  show "yScale (Fin m) = \<lparr>step = Fin s, niceMax = Fin (of_int \<lceil>m / s\<rceil> * s)\<rparr>"
    unfolding yScale_def Let_def by (simp only: a b c d e f g if_False)
qed

text \<open>
  So on a positive maximum the upper end of the axis is positive, is a whole multiple of
  the step and is not below the maximum.
\<close>

lemma yScale_positive:
  assumes "0 < m"
  shows "\<exists>s n k. yScale (Fin m) = \<lparr>step = Fin s, niceMax = Fin n\<rparr> \<and> 0 < s \<and> 0 < n \<and>
           m \<le> n \<and> n = of_int k * s"
proof -
  define s :: rat where "s = (if (of_int \<lceil>m / 4 / 10 powi ilog10 (m / 4)\<rceil> :: rat) < 3 / 2 then 1
     else if (of_int \<lceil>m / 4 / 10 powi ilog10 (m / 4)\<rceil> :: rat) < 3 then 5 / 2
     else if (of_int \<lceil>m / 4 / 10 powi ilog10 (m / 4)\<rceil> :: rat) < 7 then 5 else 10)
     * 10 powi ilog10 (m / 4)"
  have y: "yScale (Fin m) = \<lparr>step = Fin s, niceMax = Fin (of_int \<lceil>m / s\<rceil> * s)\<rparr>"
    and s: "0 < s"
    unfolding s_def by (rule yScale_finite [OF assms])+
  have "m / s \<le> of_int \<lceil>m / s\<rceil>" by (rule le_of_int_ceiling)
  then have "m / s * s \<le> of_int \<lceil>m / s\<rceil> * s"
    using s by (simp only: mult_le_cancel_right_pos)
  then have le: "m \<le> of_int \<lceil>m / s\<rceil> * s" using s by simp
  with assms have "0 < of_int \<lceil>m / s\<rceil> * s" by linarith
  with y s le show ?thesis by blast
qed

text \<open>
  Claim C1. The same is promised for a maximum of zero, where \<^verbatim>\<open>niceMax\<close> is to be a
  fixed positive default. On a series whose usages are all zero the maximum is zero, the
  magnitude is \<^verbatim>\<open>Math.pow(10, -Infinity) = 0\<close>, the step is zero and \<^verbatim>\<open>niceMax\<close> is
  \<^verbatim>\<open>Math.ceil(0 / 0) * 0\<close>, which is NaN: the test \<^verbatim>\<open>niceMax === 0\<close> of line 118 is
  false on it, the default 5000 is not assigned, and the result is not positive.
\<close>

theorem yScale_all_zero:
  "maxUsageOf [\<lparr>date = 0, usage = 0\<rparr>, \<lparr>date = 86400000, usage = 0\<rparr>] = Fin 0 \<and>
   yScale (Fin 0) = \<lparr>step = Fin 0, niceMax = NaN\<rparr> \<and>
   \<not> jlt (Fin 0) (niceMax (yScale (Fin 0)))"
  by (simp add: yScale_def maxUsageOf_def)

text \<open>
  Claim C3, as stated: the thresholds are applied to \<open>roughStep / magnitude\<close>. For a
  maximum of 4800 that quotient is 1.2, below the first threshold, and the step would be
  1000; line 110 rounds the quotient up to 2 before the thresholds see it, and the step
  is 2500.
\<close>

theorem specStep_differs:
  "step (yScale (Fin 4800)) = Fin 2500 \<and> specStep 4800 = 1000"
  by code_simp

text \<open>
  Claim C3, amended: for every positive maximum the step is chosen from
  \<open>roughStep = maxValue / 4\<close> and \<open>magnitude = 10 ^ floor (log10 roughStep)\<close> by the
  thresholds 1.5, 3 and 7 applied to \<open>r\<close>, the quotient \<open>roughStep / magnitude\<close>
  rounded up to a whole number, with \<open>step = multiplier * magnitude\<close>.
\<close>

theorem yScale_step_ceil:
  assumes "0 < m"
  shows "step (yScale (Fin m)) =
     Fin (let roughStep = m / 4;
              magnitude = 10 powi ilog10 roughStep;
              r = of_int \<lceil>roughStep / magnitude\<rceil>;
              multiplier = (if r < (3 / 2 :: rat) then 1 else if r < 3 then 5 / 2
                            else if r < 7 then 5 else 10)
          in multiplier * magnitude)"
  unfolding Let_def by (simp only: yScale_finite(1) [OF assms] axis.simps)

text \<open>The amended claim C3 at a maximum of 4800: the step is 2.5 times 1000.\<close>

theorem yScale_step_ceil_witness:
  "(0::rat) < 4800 \<and> step (yScale (Fin 4800)) = Fin (5 / 2 * 1000)"
proof -
  have e: "ilog10 1200 = 3" by code_simp
  have c: "\<lceil>6 / 5 :: rat\<rceil> = 2" by code_simp
  show ?thesis using yScale_step_ceil [of 4800] by (simp add: e c)
qed

section \<open>The generator\<close>

text \<open>
  Going back \<open>i\<close> days with \<^verbatim>\<open>setDate\<close> moves the time value by \<open>i\<close> whole days and
  the local day number by \<open>i\<close>.
\<close>

lemma setDate_back: "setDate tz t (getDate tz t - i) = t - i * msPerDay"
proof -
  let ?lt = "localTime tz t"
  have "(?lt div msPerDay - i) * msPerDay + ?lt mod msPerDay = ?lt - i * msPerDay"
    by (simp add: algebra_simps)
  then show ?thesis
    by (simp add: setDate_def Let_def localTime_def)
qed



text \<open>The loop appends one sample for each of \<open>i\<close>, \<open>i - 1\<close>, down to 0.\<close>

lemma genLoop_map:
  "genLoop tz today i data =
     data @ map (\<lambda>k. loopBody tz today (i - int k)) [0..<nat (i + 1)]"
proof (induction tz today i data rule: genLoop.induct)
  case (1 tz today i data)
  show ?case
  proof (cases "0 \<le> i")
    case True
    then have n: "nat (i + 1) = Suc (nat i)" by simp
    have "[0..<Suc (nat i)] = 0 # map Suc [0..<nat i]"
      by (simp add: upt_conv_Cons map_Suc_upt)
    then have "map (\<lambda>k. loopBody tz today (i - int k)) [0..<nat (i + 1)] =
        loopBody tz today i # map (\<lambda>k. loopBody tz today (i - 1 - int k)) [0..<nat i]"
      by (simp only: n) (simp add: comp_def algebra_simps)
    moreover have "genLoop tz today i data =
        (data @ [loopBody tz today i]) @
          map (\<lambda>k. loopBody tz today (i - 1 - int k)) [0..<nat (i - 1 + 1)]"
      using True "1.IH" by (simp add: genLoop.simps [of tz today i data])
    ultimately show ?thesis by simp
  next
    case False
    then show ?thesis by (simp add: genLoop.simps [of tz today i data])
  qed
qed

lemma generateMockData_map:
  "generateMockData tz today days =
     map (\<lambda>k. loopBody tz today (days - 1 - int k)) [0..<nat days]"
  by (simp add: generateMockData_def genLoop_map)

text \<open>The remainder is zero exactly on the multiples, whatever the sign of the dividend.\<close>

lemma js_rem_zero_iff:
  assumes "0 < b"
  shows "js_rem a b = 0 \<longleftrightarrow> b dvd a"
proof (cases "0 \<le> a")
  case True
  then have "js_rem a b = a mod b" using assms by (simp add: js_rem_def)
  then show ?thesis by (simp only: mod_eq_0_iff_dvd)
next
  case False
  then have "js_rem a b = - ((- a) mod b)" using assms by (simp add: js_rem_def)
  then have "js_rem a b = 0 \<longleftrightarrow> (- a) mod b = 0" by simp
  also have "\<dots> \<longleftrightarrow> b dvd - a" by (simp only: mod_eq_0_iff_dvd)
  also have "\<dots> \<longleftrightarrow> b dvd a" by (simp only: dvd_minus_iff)
  finally show ?thesis .
qed

text \<open>
  The base usage reads the date through the local calendar only; the spike reads the day
  index of the time value as well.
\<close>

lemma baseUsage_localDay:
  "localDay tz d = localDay tz d' \<Longrightarrow> baseUsage tz d = baseUsage tz d'"
  by (simp add: baseUsage_def isWeekend_def getDay_def dateSeed_def getFullYear_def
      getMonth_def getDate_def)

lemma sampleUsage_days:
  "localDay tz d = localDay tz d' \<Longrightarrow> dayIndex d = dayIndex d' \<Longrightarrow>
   sampleUsage tz d = sampleUsage tz d'"
  by (simp add: sampleUsage_def baseUsage_localDay [of tz d d'] isWeekend_def getDay_def)


text \<open>
  Claim C4, amended: a call with \<open>days \<le> 0\<close> is not rejected. The source has no check
  of \<open>days\<close> and no \<^verbatim>\<open>throw\<close>; the loop body never runs and the call returns the empty
  series.
\<close>

theorem nonpositive_days_empty:
  "days \<le> 0 \<Longrightarrow> generateMockData tz today days = []"
  by (simp add: generateMockData_map)

text \<open>
  Claim C4, as stated, asks for an \<open>InvalidRange\<close> failure and never an empty result;
  \<open>days = 0\<close> yields the empty series.
\<close>

theorem zero_days_not_rejected: "generateMockData (- 300) 1726239600000 0 = []"
  by (simp add: generateMockData_map)

text \<open>
  Claim C5. The first rule that matches decides the spike: a day index divisible by 37
  adds 45000 and nothing else, also when 11 divides it; 15000 is added only when 37 does
  not divide and 11 does; 5000 only when neither does, 5 does and the date is a weekday;
  otherwise nothing is added.
\<close>

theorem spike_priority:
  "(37 dvd dayIndex d \<longrightarrow> sampleUsage tz d = baseUsage tz d + 45000) \<and>
   (\<not> 37 dvd dayIndex d \<and> 11 dvd dayIndex d \<longrightarrow>
      sampleUsage tz d = baseUsage tz d + 15000) \<and>
   (\<not> 37 dvd dayIndex d \<and> \<not> 11 dvd dayIndex d \<and> 5 dvd dayIndex d \<and> \<not> isWeekend tz d \<longrightarrow>
      sampleUsage tz d = baseUsage tz d + 5000) \<and>
   (\<not> 37 dvd dayIndex d \<and> \<not> 11 dvd dayIndex d \<and> \<not> (5 dvd dayIndex d \<and> \<not> isWeekend tz d) \<longrightarrow>
      sampleUsage tz d = baseUsage tz d)"
  by (simp add: sampleUsage_def js_rem_zero_iff)



text \<open>The amended claim C4 at \<open>days = -3\<close>.\<close>

theorem nonpositive_days_empty_witness:
  "(- 3 :: int) \<le> 0 \<and> generateMockData 60 1726239600000 (- 3) = []"
  using nonpositive_days_empty [of "- 3" 60 1726239600000] by simp

text \<open>
  Claim C5 on four dates (UTC host): day 19943, divisible by 37 and by 11; day 19976,
  by 11 only; day 19975, a Monday divisible by 5; day 20015, a Saturday divisible by 5.
\<close>

theorem spike_priority_witness:
  "(37 dvd dayIndex 1723075200000 \<and> 11 dvd dayIndex 1723075200000 \<and>
    sampleUsage 0 1723075200000 = baseUsage 0 1723075200000 + 45000) \<and>
   (\<not> 37 dvd dayIndex 1725926400000 \<and> 11 dvd dayIndex 1725926400000 \<and>
    sampleUsage 0 1725926400000 = baseUsage 0 1725926400000 + 15000) \<and>
   (\<not> 37 dvd dayIndex 1725840000000 \<and> \<not> 11 dvd dayIndex 1725840000000 \<and>
    5 dvd dayIndex 1725840000000 \<and> \<not> isWeekend 0 1725840000000 \<and>
    sampleUsage 0 1725840000000 = baseUsage 0 1725840000000 + 5000) \<and>
   (\<not> 37 dvd dayIndex 1729296000000 \<and> \<not> 11 dvd dayIndex 1729296000000 \<and>
    5 dvd dayIndex 1729296000000 \<and> isWeekend 0 1729296000000 \<and>
    sampleUsage 0 1729296000000 = baseUsage 0 1729296000000)"
proof -
  have d: "dayIndex 1723075200000 = 19943" "dayIndex 1725926400000 = 19976"
    "dayIndex 1725840000000 = 19975" "dayIndex 1729296000000 = 20015"
    by code_simp+
  have w: "\<not> isWeekend 0 1725840000000" "isWeekend 0 1729296000000"
    by code_simp+
  have v: "(37::int) dvd 19943" "(11::int) dvd 19943"
    "\<not> (37::int) dvd 19976" "(11::int) dvd 19976"
    "\<not> (37::int) dvd 19975" "\<not> (11::int) dvd 19975" "(5::int) dvd 19975"
    "\<not> (37::int) dvd 20015" "\<not> (11::int) dvd 20015" "(5::int) dvd 20015"
    by simp_all
  show ?thesis
    using spike_priority [of 1723075200000 0] spike_priority [of 1725926400000 0]
      spike_priority [of 1725840000000 0] spike_priority [of 1729296000000 0]
    by (simp only: d w v simp_thms)
qed

text \<open>
  Claim C2 asks that the usage of a calendar date depend on that date alone. On a host at
  UTC-5, a call at 10:00 and a call at 20:00 of 13 September 2024 both produce a sample
  for 13 September; the day index of line 20 is taken from the time value, which at 20:00
  local time is already in day 19980 = 37 * 540 of UTC, and the second usage is 45000
  above the first.
\<close>

theorem usage_varies_within_date:
  "map (\<lambda>s. civil (localDay (- 300) (date s))) (generateMockData (- 300) 1726239600000 1) =
     [(2024, 9, 13)] \<and>
   map (\<lambda>s. civil (localDay (- 300) (date s))) (generateMockData (- 300) 1726275600000 1) =
     [(2024, 9, 13)] \<and>
   map usage (generateMockData (- 300) 1726275600000 1) =
     map (\<lambda>s. usage s + 45000) (generateMockData (- 300) 1726239600000 1)"
proof -
  have l: "localDay (- 300) 1726239600000 = 19979" "localDay (- 300) 1726275600000 = 19979"
    by code_simp+
  have c: "civil 19979 = (2024, 9, 13)" by code_simp
  have d: "dayIndex 1726239600000 = 19979" "dayIndex 1726275600000 = 19980"
    by code_simp+
  have r: "js_rem 19979 37 = 36" "js_rem 19979 11 = 3" "js_rem 19979 5 = 4"
    "js_rem 19980 37 = 0"
    by code_simp+
  have b: "baseUsage (- 300) 1726275600000 = baseUsage (- 300) 1726239600000"
    by (rule baseUsage_localDay) (simp only: l)
  have g: "generateMockData (- 300) t 1 = [\<lparr>date = t, usage = sampleUsage (- 300) t\<rparr>]" for t
    using setDate_back [of "- 300" t 0] by (simp add: generateMockData_map loopBody_def)
  show ?thesis
    by (simp add: g l c sampleUsage_def d r b)
qed

section \<open>The drawing\<close>




text \<open>
  The maximum of a series that is not empty is the finite maximum of its usages, and when
  it is positive every bar of the drawing is \<open>barShape\<close> on finite numbers: the height is
  \<^verbatim>\<open>(d.usage / niceMax) * chartHeight\<close> and the width is the bar width of the slot.
\<close>

lemma jmax_Fin: "jmax (Fin a) (Fin b) = Fin (max a b)"
  by (simp add: max_def)

lemma foldl_jmax_Fin:
  "foldl jmax (Fin (of_int a)) (map (\<lambda>d. Fin (of_int (usage d))) xs) =
     Fin (of_int (fold max (map usage xs) a))"
proof (induction xs arbitrary: a)
  case Nil
  show ?case by simp
next
  case (Cons d ds)
  have "jmax (Fin (of_int a)) (Fin (of_int (usage d))) = Fin (of_int (max (usage d) a))"
    by (simp add: max_def)
  then show ?case using Cons.IH [of "max (usage d) a"] by simp
qed

lemma maxUsageOf_Max:
  assumes "chartData \<noteq> []"
  shows "maxUsageOf chartData = Fin (of_int (Max (usage ` set chartData)))"
proof -
  from assms obtain d ds where x: "chartData = d # ds" by (cases chartData) auto
  have "maxUsageOf (d # ds) = Fin (of_int (fold max (map usage ds) (usage d)))"
    by (simp add: maxUsageOf_def foldl_jmax_Fin)
  also have "fold max (map usage ds) (usage d) = Max (set (map usage (d # ds)))"
    by (simp only: Max.set_eq_fold list.map)
  finally show ?thesis by (simp add: x)
qed

lemma barWidthOf_Fin:
  "barWidthOf (Fin t) = Fin (if 80 < t * (49 / 50) then 80 else t * (49 / 50))"
  by (simp add: barWidthOf_def jsub_def jgt_def)

lemma renderChart_bars:
  assumes "width \<noteq> 0" "height \<noteq> 0" "i < length chartData"
    and "0 < Max (usage ` set chartData)"
  shows "\<exists>s nm bx bw. renderChart width height chartData container = [s] \<and>
     niceMax (yScale (maxUsageOf chartData)) = Fin nm \<and> 0 < nm \<and>
     length (bars s) = length chartData \<and>
     bars s ! i =
       barShape (Fin bx)
         (Fin (10 + (height - 35 - of_int (usage (chartData ! i)) / nm * (height - 35))))
         (Fin (of_int (usage (chartData ! i)) / nm * (height - 35)))
         (Fin bw)"
proof -
  have ne: "chartData \<noteq> []" using assms(3) by auto
  define m :: rat where "m = of_int (Max (usage ` set chartData))"
  have m: "0 < m" using assms(4) by (simp add: m_def)
  from yScale_positive [OF m] obtain st nm where
    y: "yScale (Fin m) = \<lparr>step = Fin st, niceMax = Fin nm\<rparr>" and nm: "0 < nm"
    by blast
  have mx: "niceMax (yScale (maxUsageOf chartData)) = Fin nm"
    by (simp add: maxUsageOf_Max [OF ne] m_def [symmetric] y)
  define t where "t = (width - 60) / of_nat (length chartData)"
  have n: "(of_nat (length chartData) :: rat) \<noteq> 0" using ne by simp
  have w: "jdiv (jsub (jsub (Fin width) (Fin 50)) (Fin 10)) (Fin (of_nat (length chartData))) =
      Fin t"
    using n by (simp add: jsub_def t_def)
  have h: "jsub (jsub (Fin height) (Fin 10)) (Fin 25) = Fin (height - 35)"
    by (simp add: jsub_def)
  define bw where "bw = (if 80 < t * (49 / 50) then 80 else t * (49 / 50))"
  have b: "barOf (Fin t) (Fin (height - 35)) (Fin nm) i (chartData ! i) =
      barShape (Fin (50 + of_nat i * t + (t - bw) / 2))
        (Fin (10 + (height - 35 - of_int (usage (chartData ! i)) / nm * (height - 35))))
        (Fin (of_int (usage (chartData ! i)) / nm * (height - 35)))
        (Fin bw)"
  proof -
    have "barWidthOf (Fin t) = Fin bw" by (simp only: barWidthOf_Fin bw_def)
    then show ?thesis using nm by (simp add: barOf_def Let_def jsub_def)
  qed
  have "enumerate 0 chartData ! i = (i, chartData ! i)"
    using assms(3) by (simp add: nth_enumerate_eq)
  then show ?thesis
    using assms(1,2,3) nm
    by (simp add: renderChart_def Let_def w h mx b) blast
qed

text \<open>
  Claim C9, amended: when the width or the height of the viewport is zero, the call draws
  nothing and raises nothing, and it leaves the container empty: line 78 clears the
  container before line 81 tests the viewport, so a chart drawn before is removed.
\<close>

theorem zero_viewport_empties:
  "width = 0 \<or> height = 0 \<Longrightarrow> renderChart width height chartData container = []"
  by (auto simp: renderChart_def)

text \<open>The amended claim C9 on a viewport of width zero, over a chart drawn before.\<close>

theorem zero_viewport_empties_witness:
  "((0::rat) = 0 \<or> (300::rat) = 0) \<and>
   renderChart 0 300 [\<lparr>date = 1726239600000, usage = 6000\<rparr>]
     [\<lparr>svg_width = Fin 800, svg_height = Fin 300, cursors = [], bars = []\<rparr>] = []"
  using zero_viewport_empties [of 0 300 "[\<lparr>date = 1726239600000, usage = 6000\<rparr>]"
      "[\<lparr>svg_width = Fin 800, svg_height = Fin 300, cursors = [], bars = []\<rparr>]"]
  by simp

text \<open>
  Claim C9, as stated, has the call leave the observable state unchanged; a container that
  holds a drawing does not hold it after a call on a viewport of width zero.
\<close>

theorem zero_viewport_clears:
  "renderChart 0 300 [\<lparr>date = 1726239600000, usage = 6000\<rparr>]
     [\<lparr>svg_width = Fin 800, svg_height = Fin 300, cursors = [], bars = []\<rparr>] \<noteq>
   [\<lparr>svg_width = Fin 800, svg_height = Fin 300, cursors = [], bars = []\<rparr>]"
  by (simp add: renderChart_def)

text \<open>
  Claim C7. With the radius 4, a bar lower than 4 is the plain rectangle: up by the
  height (clamped at zero), right by the width, down again, no arc. A bar of height 4 or
  more goes up by the height less 4, turns through an arc of radius 4 to the top edge,
  runs right, turns through a second arc of radius 4 and goes straight down, so the two
  bottom corners are square.
\<close>

theorem bar_outline_threshold:
  "(h < 4 \<longrightarrow>
      barShape (Fin bx) (Fin by) (Fin h) (Fin w) =
        [MoveTo (Fin bx) (Fin (by + max 0 h)), VertBy (Fin (- max 0 h)), HorizBy (Fin w),
         VertBy (Fin (max 0 h)), ClosePath] \<and>
      \<not> rounded (barShape (Fin bx) (Fin by) (Fin h) (Fin w))) \<and>
   (4 \<le> h \<longrightarrow>
      barShape (Fin bx) (Fin by) (Fin h) (Fin w) =
        [MoveTo (Fin bx) (Fin (by + h)),
         VertBy (Fin (- (h - 4))),
         ArcBy (Fin 4) (Fin 4) (Fin 0) False True (Fin 4) (Fin (- 4)),
         HorizBy (Fin (w - 8)),
         ArcBy (Fin 4) (Fin 4) (Fin 0) False True (Fin 4) (Fin 4),
         VertBy (Fin (h - 4)),
         ClosePath] \<and>
      rounded (barShape (Fin bx) (Fin by) (Fin h) (Fin w)))"
  by (simp add: barShape_def Let_def rounded_def jsub_def max_def)

text \<open>Claim C7 at height 3, one below the radius, and at height 4, the radius itself.\<close>

theorem bar_outline_threshold_witness:
  "((3::rat) < 4 \<and>
    barShape (Fin 60) (Fin 262) (Fin 3) (Fin 20) =
      [MoveTo (Fin 60) (Fin 265), VertBy (Fin (- 3)), HorizBy (Fin 20), VertBy (Fin 3),
       ClosePath]) \<and>
   ((4::rat) \<le> 4 \<and>
    barShape (Fin 60) (Fin 261) (Fin 4) (Fin 20) =
      [MoveTo (Fin 60) (Fin 265), VertBy (Fin 0),
       ArcBy (Fin 4) (Fin 4) (Fin 0) False True (Fin 4) (Fin (- 4)),
       HorizBy (Fin 12),
       ArcBy (Fin 4) (Fin 4) (Fin 0) False True (Fin 4) (Fin 4),
       VertBy (Fin 0), ClosePath])"
  using bar_outline_threshold [of 3 60 262 20] bar_outline_threshold [of 4 60 261 20]
  by simp

text \<open>
  Claim C10. Whether the outline is rounded is decided by the height alone, for every
  width; a bar of height 4 or more that is narrower than 8 gets the rounded outline, and
  its top segment, the fourth command, runs by the negative length \<open>w - 8\<close>.
\<close>

theorem rounding_ignores_width:
  "(rounded (barShape (Fin bx) (Fin by) (Fin h) (Fin w)) \<longleftrightarrow> 4 \<le> h) \<and>
   (4 \<le> h \<and> w < 8 \<longrightarrow>
      barShape (Fin bx) (Fin by) (Fin h) (Fin w) ! 3 = HorizBy (Fin (w - 8)) \<and> w - 8 < 0)"
  by (simp add: barShape_def Let_def rounded_def jsub_def max_def)

text \<open>
  Claim C10 on a bar that a drawing contains: 90 samples in a viewport 600 wide have
  slots of width 6 and bars of width 5.88.
\<close>

theorem rounding_ignores_width_witness:
  "barWidthOf (jdiv (Fin (600 - 60)) (Fin 90)) = Fin (147 / 25) \<and>
   (4::rat) \<le> 100 \<and> (147 / 25 :: rat) < 8 \<and>
   rounded (barShape (Fin 50) (Fin 165) (Fin 100) (Fin (147 / 25))) \<and>
   barShape (Fin 50) (Fin 165) (Fin 100) (Fin (147 / 25)) ! 3 = HorizBy (Fin (- (53 / 25)))"
  using rounding_ignores_width [of 50 165 100 "147 / 25"]
  by (simp add: barWidthOf_def jsub_def jgt_def)





end
